theory Spec2Isabelle
  imports Main "HOL-Library.Word"
begin

section \<open>Go values used by pkg/cluster\<close>

text \<open>
  A Go \<^verbatim>\<open>error\<close> is modelled by its message; \<^verbatim>\<open>nil\<close> is \<open>None\<close>.
  A Go \<^verbatim>\<open>string\<close> or \<^verbatim>\<open>[]byte\<close> is a list of bytes. Go's \<^verbatim>\<open>int\<close> is
  taken as the 64-bit signed integer of the usual targets: values are HOL integers and the
  one addition of the package that could leave the range wraps explicitly.
\<close>

type_synonym error = string

definition newline :: char where
  "newline = CHR 0x0A"

definition wrap64 :: "int \<Rightarrow> int" where
  "wrap64 x = (x + 2 ^ 63) mod 2 ^ 64 - 2 ^ 63"

subsection \<open>Decimal rendering and parsing (strconv)\<close>

definition digit :: "nat \<Rightarrow> char" where
  "digit d = ''0123456789'' ! d"

fun itoa_nat :: "nat \<Rightarrow> string" where
  "itoa_nat n = (if n < 10 then [digit n] else itoa_nat (n div 10) @ [digit (n mod 10)])"

declare itoa_nat.simps [simp del]

definition itoa :: "int \<Rightarrow> string" where
  "itoa i = (if i < 0 then CHR ''-'' # itoa_nat (nat (- i)) else itoa_nat (nat i))"

definition isDigit :: "char \<Rightarrow> bool" where
  "isDigit c = (c \<in> set ''0123456789'')"

definition digitVal :: "char \<Rightarrow> int" where
  "digitVal c = of_char c - 48"

subsection \<open>fmt.Sprintf, for the directives this package reaches with literal formats\<close>

text \<open>
  The arguments the package passes to \<^verbatim>\<open>f\<close> are strings, ints and one \<^verbatim>\<open>uint16\<close>.
  \<open>doPrintf\<close> follows fmt's loop for plain text, \<^verbatim>\<open>%%\<close>, \<^verbatim>\<open>%d\<close>, \<^verbatim>\<open>%s\<close> and
  \<^verbatim>\<open>%v\<close> without flags, including fmt's own error renderings (\<^verbatim>\<open>%!d(string=x)\<close>,
  \<^verbatim>\<open>%!d(MISSING)\<close>, \<^verbatim>\<open>%!(NOVERB)\<close>, \<^verbatim>\<open>%!(EXTRA int=0)\<close>). Any other directive
  (flags, width, precision, argument indexes, other verbs) makes it return \<open>None\<close>;
  \<open>Sprintf\<close> then defers to a parameter standing for the rest of the library, so that
  nothing is asserted about formats outside the modelled ones.
\<close>

datatype arg = AString string | AInt int | AUint16 "16 word"

fun typeName :: "arg \<Rightarrow> string" where
  "typeName (AString s) = ''string''"
| "typeName (AInt i) = ''int''"
| "typeName (AUint16 w) = ''uint16''"

fun printValue :: "arg \<Rightarrow> string" where
  "printValue (AString s) = s"
| "printValue (AInt i) = itoa i"
| "printValue (AUint16 w) = itoa_nat (unat w)"

definition badVerb :: "char \<Rightarrow> arg \<Rightarrow> string" where
  "badVerb v a = ''%!'' @ [v] @ ''('' @ typeName a @ ''='' @ printValue a @ '')''"

fun printArg :: "char \<Rightarrow> arg \<Rightarrow> string" where
  "printArg v (AString s) = (if v = CHR ''d'' then badVerb v (AString s) else s)"
| "printArg v a = (if v = CHR ''s'' then badVerb v a else printValue a)"

fun extraArgs :: "arg list \<Rightarrow> string" where
  "extraArgs [] = []"
| "extraArgs [a] = typeName a @ ''='' @ printValue a"
| "extraArgs (a # b # bs) = typeName a @ ''='' @ printValue a @ '', '' @ extraArgs (b # bs)"

definition extraString :: "arg list \<Rightarrow> string" where
  "extraString as = (if as = [] then [] else ''%!(EXTRA '' @ extraArgs as @ '')'')"

fun doPrintf :: "string \<Rightarrow> arg list \<Rightarrow> string option" where
  "doPrintf [] as = Some (extraString as)"
| "doPrintf [c] as = Some ((if c = CHR ''%'' then ''%!(NOVERB)'' else [c]) @ extraString as)"
| "doPrintf (c # v # fs) as =
     (if c \<noteq> CHR ''%'' then map_option ((#) c) (doPrintf (v # fs) as)
      else if v = CHR ''%'' then map_option ((#) CHR ''%'') (doPrintf fs as)
      else if v = CHR ''d'' \<or> v = CHR ''s'' \<or> v = CHR ''v'' then
        (case as of
           [] \<Rightarrow> map_option ((@) (''%!'' @ [v] @ ''(MISSING)'')) (doPrintf fs [])
         | a # as' \<Rightarrow> map_option ((@) (printArg v a)) (doPrintf fs as'))
      else None)"

type_synonym fmt_rest = "string \<Rightarrow> arg list \<Rightarrow> string"

definition Sprintf :: "fmt_rest \<Rightarrow> string \<Rightarrow> arg list \<Rightarrow> string" where
  "Sprintf rest format args =
     (case doPrintf format args of Some s \<Rightarrow> s | None \<Rightarrow> rest format args)"


section \<open>The configuration and the machines derived from it\<close>

text \<open>
  Modelled from the spec: the structs of \<^verbatim>\<open>pkg/config\<close> and the fields of
  \<^verbatim>\<open>Machine\<close>, whose declarations are not among the sources. They have the fields that
  \<^verbatim>\<open>cluster.go\<close> reads and writes, with the types it uses them at (the ports are
  \<^verbatim>\<open>uint16\<close>, the count is an \<^verbatim>\<open>int\<close>), as in the data model of the specification.
  The cluster's name field is called \<open>ClusterName\<close> here, and the struct fields named
  \<^verbatim>\<open>spec\<close> are \<open>spec\<close> (of a machine) and \<open>cluster_spec\<close> (of the cluster).
\<close>

record Volume =
  Type :: string
  Source :: string
  Destination :: string
  ReadOnly :: bool

record PortMapping =
  ContainerPort :: "16 word"
  HostPort :: "16 word"
  Address :: string
  Protocol :: string

record config_Machine =
  Name :: string
  Image :: string
  Cmd :: string
  Privileged :: bool
  Volumes :: "Volume list"
  PortMappings :: "PortMapping list"

record MachineReplicas =
  Spec :: config_Machine
  Count :: int

record config_Cluster =
  ClusterName :: string
  PrivateKey :: string

record Config =
  Cluster :: config_Cluster
  Machines :: "MachineReplicas list"

record Cluster =
  cluster_spec :: Config

record Machine =
  spec :: config_Machine
  name :: string
  hostname :: string
  ip :: string

text \<open>
  The functions of \<^verbatim>\<open>cluster.go\<close> follow. Each function that formats takes the
  parameter of \<open>Sprintf\<close> as its first argument.
\<close>

definition f :: "fmt_rest \<Rightarrow> string \<Rightarrow> arg list \<Rightarrow> string" where
  "f rest format args = Sprintf rest format args"

definition containerName :: "fmt_rest \<Rightarrow> Cluster \<Rightarrow> config_Machine \<Rightarrow> int \<Rightarrow> string" where
  "containerName rest c machine i =
     (let format = ''%s-'' @ Name machine
      in f rest format [AString (ClusterName (Cluster (cluster_spec c))), AInt i])"

definition machine :: "fmt_rest \<Rightarrow> Cluster \<Rightarrow> config_Machine \<Rightarrow> int \<Rightarrow> Machine" where
  "machine rest c sp i =
     \<lparr>spec = sp, name = containerName rest c sp i, hostname = f rest (Name sp) [AInt i], ip = []\<rparr>"

text \<open>
  \<^verbatim>\<open>forEachMachine\<close>: the inner loop over the indexes of one template, the outer loop over
  the templates. The action takes and returns the state it works on.
\<close>

function forEachReplica ::
  "fmt_rest \<Rightarrow> Cluster \<Rightarrow> (Machine \<Rightarrow> int \<Rightarrow> 's \<Rightarrow> error option \<times> 's) \<Rightarrow> MachineReplicas \<Rightarrow> int \<Rightarrow> 's
     \<Rightarrow> error option \<times> 's" where
  "forEachReplica rest c act template i s =
     (if i < Count template then
        (case act (machine rest c (Spec template) i) i s of
           (Some err, s') \<Rightarrow> (Some err, s')
         | (None, s') \<Rightarrow> forEachReplica rest c act template (i + 1) s')
      else (None, s))"
  by pat_completeness auto
termination
  by (relation "measure (\<lambda>(rest, c, act, template, i, s). nat (Count template - i))") auto

declare forEachReplica.simps [simp del]

fun forEachTemplate ::
  "fmt_rest \<Rightarrow> Cluster \<Rightarrow> (Machine \<Rightarrow> int \<Rightarrow> 's \<Rightarrow> error option \<times> 's) \<Rightarrow> MachineReplicas list \<Rightarrow> 's
     \<Rightarrow> error option \<times> 's" where
  "forEachTemplate rest c act [] s = (None, s)"
| "forEachTemplate rest c act (template # templates) s =
     (case forEachReplica rest c act template 0 s of
        (Some err, s') \<Rightarrow> (Some err, s')
      | (None, s') \<Rightarrow> forEachTemplate rest c act templates s')"

definition forEachMachine ::
  "fmt_rest \<Rightarrow> Cluster \<Rightarrow> (Machine \<Rightarrow> int \<Rightarrow> 's \<Rightarrow> error option \<times> 's) \<Rightarrow> 's \<Rightarrow> error option \<times> 's" where
  "forEachMachine rest c act s = forEachTemplate rest c act (Machines (cluster_spec c)) s"

text \<open>\<^verbatim>\<open>gatherMachinesByCluster\<close>: the same two loops, collecting the machines.\<close>

function gatherReplicas ::
  "fmt_rest \<Rightarrow> Cluster \<Rightarrow> MachineReplicas \<Rightarrow> int \<Rightarrow> Machine list \<Rightarrow> Machine list" where
  "gatherReplicas rest c template i machines =
     (if i < Count template then
        gatherReplicas rest c template (i + 1) (machines @ [machine rest c (Spec template) i])
      else machines)"
  by pat_completeness auto
termination
  by (relation "measure (\<lambda>(rest, c, template, i, machines). nat (Count template - i))") auto

declare gatherReplicas.simps [simp del]

definition gatherMachinesByCluster :: "fmt_rest \<Rightarrow> Cluster \<Rightarrow> Machine list" where
  "gatherMachinesByCluster rest c =
     foldl (\<lambda>machines template. gatherReplicas rest c template 0 machines) [] (Machines (cluster_spec c))"

text \<open>
  \<^verbatim>\<open>machineFromHostname\<close>: the scan returns at the first pair whose formatted name is the
  hostname asked for.
\<close>

function findReplica ::
  "fmt_rest \<Rightarrow> Cluster \<Rightarrow> string \<Rightarrow> MachineReplicas \<Rightarrow> int \<Rightarrow> Machine option" where
  "findReplica rest c h template i =
     (if i < Count template then
        (if h = f rest (Name (Spec template)) [AInt i] then Some (machine rest c (Spec template) i)
         else findReplica rest c h template (i + 1))
      else None)"
  by pat_completeness auto
termination
  by (relation "measure (\<lambda>(rest, c, h, template, i). nat (Count template - i))") auto

declare findReplica.simps [simp del]

fun findTemplate :: "fmt_rest \<Rightarrow> Cluster \<Rightarrow> string \<Rightarrow> MachineReplicas list \<Rightarrow> Machine option" where
  "findTemplate rest c h [] = None"
| "findTemplate rest c h (template # templates) =
     (case findReplica rest c h template 0 of
        Some m \<Rightarrow> Some m
      | None \<Rightarrow> findTemplate rest c h templates)"

definition machineFromHostname :: "fmt_rest \<Rightarrow> Cluster \<Rightarrow> string \<Rightarrow> error + Machine" where
  "machineFromHostname rest c h =
     (case findTemplate rest c h (Machines (cluster_spec c)) of
        Some m \<Rightarrow> Inr m
      | None \<Rightarrow> Inl (f rest ''%s: invalid machine hostname'' [AString h]))"

fun mappingFromPort :: "fmt_rest \<Rightarrow> PortMapping list \<Rightarrow> int \<Rightarrow> error + PortMapping" where
  "mappingFromPort rest [] containerPort = Inl (f rest ''unknown containerPort %d'' [AInt containerPort])"
| "mappingFromPort rest (p # ps) containerPort =
     (if uint (ContainerPort p) = containerPort then Inr p
      else mappingFromPort rest ps containerPort)"

text \<open>
  The declared instances in the order the two loops visit them: templates in declaration
  order, and for each template the indexes \<open>0\<close> to \<open>Count - 1\<close> ascending (none when the
  count is not positive).
\<close>

definition instances :: "fmt_rest \<Rightarrow> Cluster \<Rightarrow> (Machine \<times> int) list" where
  "instances rest c =
     concat (map (\<lambda>template. map (\<lambda>i. (machine rest c (Spec template) i, i)) [0..Count template - 1])
       (Machines (cluster_spec c)))"

text \<open>
  The iterator as the specification words it: the action is applied to the instances one
  after the other, and the first error ends the iteration and is the result.
\<close>

fun applyInOrder ::
  "(Machine \<Rightarrow> int \<Rightarrow> 's \<Rightarrow> error option \<times> 's) \<Rightarrow> (Machine \<times> int) list \<Rightarrow> 's \<Rightarrow> error option \<times> 's" where
  "applyInOrder act [] s = (None, s)"
| "applyInOrder act ((m, i) # rest) s =
     (case act m i s of
        (Some err, s') \<Rightarrow> (Some err, s')
      | (None, s') \<Rightarrow> applyInOrder act rest s')"

text \<open>
  The resolver as the specification words it: the first instance, in that order, whose
  hostname is the one asked for.
\<close>

fun firstWithHostname :: "string \<Rightarrow> (Machine \<times> int) list \<Rightarrow> Machine option" where
  "firstWithHostname h [] = None"
| "firstWithHostname h ((m, i) # rest) = (if hostname m = h then Some m else firstWithHostname h rest)"

section \<open>The container backend and the lifecycle operations\<close>

text \<open>
  What the package does to the outside is recorded in a \<open>world\<close>: the containers the
  backend holds (by name, with whether the process inside is started), the trace of the
  backend primitives and subprocesses invoked so far, the log lines written, and what was
  written to the standard error stream. Queries of the backend read the world and leave
  no trace.

  The collaborators outside the package are parameters, collected in \<open>env\<close>: the rest of
  \<^verbatim>\<open>fmt\<close>, whether a backend primitive fails (it may depend on the containers and on
  the history), the file system, \<^verbatim>\<open>docker inspect\<close>, the published host port of a
  machine, and what an \<^verbatim>\<open>ssh\<close> subprocess writes to its standard error and exits with.
  \<open>ContainerJSON\<close> has the parts of docker's inspection record that the package reads:
  the published ports by container port key, the mounts, the command and the IP address.
\<close>

datatype call =
    DockerRun string "string list" "string list"
  | RunShell string string
  | CopyTo string string string
  | DockerKill string string
  | DockerRm string
  | DockerStart string
  | DockerStop string
  | SshRun "string list"
  | Sleep nat

record world =
  containers :: "string \<rightharpoonup> bool"
  trace :: "call list"
  logs :: "string list"
  stderr :: "string list"

record PortBinding =
  HostIP :: string
  binding_HostPort :: string

record MountPoint =
  mount_Type :: string
  mount_Source :: string
  mount_Destination :: string
  RW :: bool

record ContainerJSON =
  Ports :: "(string \<times> PortBinding list) list"
  Mounts :: "MountPoint list"
  ConfigCmd :: "string list"
  IPAddress :: string

record procResult =
  writes :: "string list"
  exitErr :: "error option"

record env =
  fmtRest :: fmt_rest
  fails :: "(string \<rightharpoonup> bool) \<Rightarrow> call list \<Rightarrow> call \<Rightarrow> error option"
  expand :: "string \<Rightarrow> string"
  readFile :: "string \<Rightarrow> error + string"
  inspectJSON :: "string \<Rightarrow> error + ContainerJSON"
  publishedPort :: "Machine \<Rightarrow> int \<Rightarrow> error + int"
  sshProcess :: "call list \<Rightarrow> string list \<Rightarrow> procResult"

text \<open>
  Modelled from the spec: the container backend, and the helpers \<^verbatim>\<open>containerRunShell\<close>
  and \<^verbatim>\<open>copy\<close> of the package, which are not among the sources and are the backend's
  \<^verbatim>\<open>Exec\<close> and \<^verbatim>\<open>CopyInto\<close>. Each invocation is added to the trace. A primitive
  that fails changes no container; one that succeeds has the effect the state table of
  the specification gives it: \<^verbatim>\<open>docker run\<close> creates the container named by its
  \<^verbatim>\<open>--name\<close> argument, started; start and stop set whether it is started; kill stops
  it; rm removes it.
\<close>

fun argAfter :: "string \<Rightarrow> string list \<Rightarrow> string option" where
  "argAfter k [] = None"
| "argAfter k [x] = None"
| "argAfter k (x # y # r) = (if x = k then Some y else argAfter k (y # r))"

fun effect :: "call \<Rightarrow> (string \<rightharpoonup> bool) \<Rightarrow> (string \<rightharpoonup> bool)" where
  "effect (DockerRun img runArgs cmd) cs =
     (case argAfter ''--name'' runArgs of Some n \<Rightarrow> cs(n \<mapsto> True) | None \<Rightarrow> cs)"
| "effect (DockerKill signal n) cs = (if cs n \<noteq> None then cs(n \<mapsto> False) else cs)"
| "effect (DockerRm n) cs = cs(n := None)"
| "effect (DockerStart n) cs = (if cs n \<noteq> None then cs(n \<mapsto> True) else cs)"
| "effect (DockerStop n) cs = (if cs n \<noteq> None then cs(n \<mapsto> False) else cs)"
| "effect (RunShell n script) cs = cs"
| "effect (CopyTo n content path) cs = cs"
| "effect (SshRun args) cs = cs"
| "effect (Sleep ms) cs = cs"

definition invoke :: "env \<Rightarrow> call \<Rightarrow> world \<Rightarrow> error option \<times> world" where
  "invoke E call w =
     (case fails E (containers w) (trace w) call of
        Some err \<Rightarrow> (Some err, w\<lparr>trace := trace w @ [call]\<rparr>)
      | None \<Rightarrow> (None, w\<lparr>containers := effect call (containers w), trace := trace w @ [call]\<rparr>))"

definition Infof :: "env \<Rightarrow> string \<Rightarrow> arg list \<Rightarrow> world \<Rightarrow> world" where
  "Infof E format args w = w\<lparr>logs := logs w @ [f (fmtRest E) format args]\<rparr>"

text \<open>
  Modelled from the spec: the methods of \<^verbatim>\<open>Machine\<close> that \<^verbatim>\<open>machine.go\<close>, which is not
  among the sources, defines. \<open>ContainerName\<close> and \<open>Hostname\<close> read the derived name and
  hostname; \<open>IsRunning\<close> holds when the container object exists at all, \<open>IsStarted\<close> when the
  process inside is executing.
\<close>

definition ContainerName :: "Machine \<Rightarrow> string" where
  "ContainerName m = name m"

definition Hostname :: "Machine \<Rightarrow> string" where
  "Hostname m = hostname m"

definition IsRunning :: "Machine \<Rightarrow> world \<Rightarrow> bool" where
  "IsRunning m w = (containers w (name m) \<noteq> None)"

definition IsStarted :: "Machine \<Rightarrow> world \<Rightarrow> bool" where
  "IsStarted m w = (containers w (name m) = Some True)"

definition initScript :: string where
  "initScript =
     [newline] @ ''set -e'' @ [newline] @ ''rm -f /run/nologin'' @ [newline]
     @ ''sshdir=/root/.ssh'' @ [newline] @ ''mkdir $sshdir; chmod 700 $sshdir'' @ [newline]
     @ ''touch $sshdir/authorized_keys; chmod 600 $sshdir/authorized_keys'' @ [newline]"

definition publicKey :: "env \<Rightarrow> Cluster \<Rightarrow> error + string" where
  "publicKey E c =
     (let path = expand E (PrivateKey (Cluster (cluster_spec c))) in readFile E (path @ ''.pub''))"

definition mountArg :: "fmt_rest \<Rightarrow> Volume \<Rightarrow> string" where
  "mountArg rest volume =
     (let mount = f rest ''type=%s'' [AString (Type volume)];
          mount = (if Source volume \<noteq> [] then mount @ f rest '',src=%s'' [AString (Source volume)]
                   else mount);
          mount = mount @ f rest '',dst=%s'' [AString (Destination volume)];
          mount = (if ReadOnly volume then mount @ '',readonly'' else mount)
      in mount)"

definition publishArg :: "fmt_rest \<Rightarrow> PortMapping \<Rightarrow> int \<Rightarrow> string" where
  "publishArg rest mapping i =
     (let publish = [];
          publish = (if Address mapping \<noteq> [] then publish @ f rest ''%s:'' [AString (Address mapping)]
                     else publish);
          publish = (if HostPort mapping \<noteq> 0
                     then publish @ f rest ''%d:'' [AInt (wrap64 (uint (HostPort mapping) + i))]
                     else publish);
          publish = publish @ f rest ''%d'' [AUint16 (ContainerPort mapping)];
          publish = (if Protocol mapping \<noteq> [] then publish @ f rest ''/%s'' [AString (Protocol mapping)]
                     else publish)
      in publish)"

definition createMachineRunArgs :: "fmt_rest \<Rightarrow> Cluster \<Rightarrow> Machine \<Rightarrow> string \<Rightarrow> int \<Rightarrow> string list" where
  "createMachineRunArgs rest c m nm i =
     (let runArgs =
            [''-it'', ''-d'',
             ''--label'', ''works.weave.owner=footloose'',
             ''--label'', ''works.weave.cluster='' @ ClusterName (Cluster (cluster_spec c)),
             ''--name'', nm,
             ''--hostname'', Hostname m,
             ''--tmpfs'', ''/run'',
             ''--tmpfs'', ''/run/lock'',
             ''--tmpfs'', ''/tmp'',
             ''-v'', ''/sys/fs/cgroup:/sys/fs/cgroup:ro''];
          runArgs = foldl (\<lambda>args volume. args @ [''--mount'', mountArg rest volume]) runArgs
                      (Volumes (spec m));
          runArgs = foldl (\<lambda>args mapping. args @ [''-p'', publishArg rest mapping i]) runArgs
                      (PortMappings (spec m));
          runArgs = (if Privileged (spec m) then runArgs @ [''--privileged''] else runArgs)
      in runArgs)"

definition createMachine :: "env \<Rightarrow> Cluster \<Rightarrow> Machine \<Rightarrow> int \<Rightarrow> world \<Rightarrow> error option \<times> world" where
  "createMachine E c m i w =
     (let nm = ContainerName m;
          runArgs = createMachineRunArgs (fmtRest E) c m nm i;
          w = Infof E ''Creating machine: %s ...'' [AString nm] w
      in if IsRunning m w then
           (None, Infof E ''Machine with name %s is already running...'' [AString nm] w)
         else
           (let cmd = (if Cmd (spec m) \<noteq> [] then Cmd (spec m) else ''/sbin/init'') in
            case invoke E (DockerRun (Image (spec m)) runArgs [cmd]) w of
              (Some err, w) \<Rightarrow> (Some err, w)
            | (None, w) \<Rightarrow>
                (case invoke E (RunShell nm initScript) w of
                   (Some err, w) \<Rightarrow> (Some err, w)
                 | (None, w) \<Rightarrow>
                     (case publicKey E c of
                        Inl err \<Rightarrow> (Some err, w)
                      | Inr key \<Rightarrow>
                          (case invoke E (CopyTo nm key ''/root/.ssh/authorized_keys'') w of
                             (Some err, w) \<Rightarrow> (Some err, w)
                           | (None, w) \<Rightarrow> (None, w))))))"

definition deleteMachine :: "env \<Rightarrow> Machine \<Rightarrow> int \<Rightarrow> world \<Rightarrow> error option \<times> world" where
  "deleteMachine E m i w =
     (let nm = ContainerName m
      in if \<not> IsRunning m w then
           (None, Infof E ''Machine with name %s isn't running...'' [AString nm] w)
         else if IsStarted m w then
           (let w = Infof E ''Machine with name %s is started, stopping and deleting machine...''
                      [AString nm] w
            in case invoke E (DockerKill ''KILL'' nm) w of
                 (Some err, w) \<Rightarrow> (Some err, w)
               | (None, w) \<Rightarrow> invoke E (DockerRm nm) w)
         else
           (let w = Infof E ''Deleting machine: %s ...'' [AString nm] w
            in invoke E (DockerRm nm) w))"

definition startMachine :: "env \<Rightarrow> Machine \<Rightarrow> int \<Rightarrow> world \<Rightarrow> error option \<times> world" where
  "startMachine E m i w =
     (let nm = ContainerName m
      in if \<not> IsRunning m w then
           (None, Infof E ''Machine with name %s isn't running...'' [AString nm] w)
         else if IsStarted m w then
           (None, Infof E ''Machine with name %s is already started...'' [AString nm] w)
         else
           (let w = Infof E ''Starting machine: %s ...'' [AString nm] w
            in invoke E (DockerStart nm) w))"

definition stopMachine :: "env \<Rightarrow> Machine \<Rightarrow> int \<Rightarrow> world \<Rightarrow> error option \<times> world" where
  "stopMachine E m i w =
     (let nm = ContainerName m
      in if \<not> IsRunning m w then
           (None, Infof E ''Machine with name %s isn't running...'' [AString nm] w)
         else if \<not> IsStarted m w then
           (None, Infof E ''Machine with name %s is already stopped...'' [AString nm] w)
         else
           (let w = Infof E ''Stopping machine: %s ...'' [AString nm] w
            in invoke E (DockerStop nm) w))"

definition Delete :: "env \<Rightarrow> Cluster \<Rightarrow> world \<Rightarrow> error option \<times> world" where
  "Delete E c w = forEachMachine (fmtRest E) c (deleteMachine E) w"

definition Start :: "env \<Rightarrow> Cluster \<Rightarrow> world \<Rightarrow> error option \<times> world" where
  "Start E c w = forEachMachine (fmtRest E) c (startMachine E) w"

definition Stop :: "env \<Rightarrow> Cluster \<Rightarrow> world \<Rightarrow> error option \<times> world" where
  "Stop E c w = forEachMachine (fmtRest E) c (stopMachine E) w"

section \<open>The remote session\<close>

subsection \<open>The two regular expressions\<close>

text \<open>
  The package compiles two patterns, built from \<^verbatim>\<open>^\<close>, literal characters, \<^verbatim>\<open>.\<close> and
  \<^verbatim>\<open>.*\<close>. \<open>Match\<close> is \<^verbatim>\<open>Regexp.Match\<close> for such patterns: whether the bytes contain a
  match. \<^verbatim>\<open>^\<close> matches only at the beginning of the text and \<^verbatim>\<open>.\<close> matches any
  character but a newline, as without flags. The flag of \<open>matchHere\<close> tells whether the
  position is the beginning of the text.
\<close>

datatype atom = Begin | Lit char | Dot | DotStar

type_synonym Regexp = "atom list"

fun matchHere :: "Regexp \<Rightarrow> bool \<Rightarrow> string \<Rightarrow> bool" where
  "matchHere [] b s = True"
| "matchHere (Begin # r) b s = (b \<and> matchHere r b s)"
| "matchHere (Lit c # r) b [] = False"
| "matchHere (Lit c # r) b (x # s) = (x = c \<and> matchHere r False s)"
| "matchHere (Dot # r) b [] = False"
| "matchHere (Dot # r) b (x # s) = (x \<noteq> newline \<and> matchHere r False s)"
| "matchHere (DotStar # r) b [] = matchHere r b []"
| "matchHere (DotStar # r) b (x # s) =
     (matchHere r b (x # s) \<or> (x \<noteq> newline \<and> matchHere (DotStar # r) False s))"

fun matchFrom :: "Regexp \<Rightarrow> bool \<Rightarrow> string \<Rightarrow> bool" where
  "matchFrom re b [] = matchHere re b []"
| "matchFrom re b (x # s) = (matchHere re b (x # s) \<or> matchFrom re False s)"

definition Match :: "Regexp \<Rightarrow> string \<Rightarrow> bool" where
  "Match re p = matchFrom re True p"

definition connectRefused :: Regexp where
  "connectRefused = Begin # map Lit ''ssh_exchange_identification: ''"

definition knownHosts :: Regexp where
  "knownHosts =
     Begin # map Lit ''Warning: Permanently added '' @ [DotStar]
       @ map Lit '' to the list of known hosts'' @ [Dot]"

subsection \<open>The match filter\<close>

text \<open>
  An \<^verbatim>\<open>io.Writer\<close> takes the bytes and the state it writes to, and returns the count
  and error of \<^verbatim>\<open>Write\<close> with the new state. A \<open>matchFilter\<close> holds its own fields; the
  writer it wraps is the first argument of \<open>Write\<close>, and the state of that writer is
  paired with the filter. Standard error takes every write whole.
\<close>

record matchFilter =
  writeMatched :: bool
  regexp :: Regexp
  matched :: bool

type_synonym 'w writer = "string \<Rightarrow> 'w \<Rightarrow> (nat \<times> error option) \<times> 'w"

definition Write :: "'w writer \<Rightarrow> (matchFilter \<times> 'w) writer" where
  "Write writer p st =
     (case st of
        (flt, inner) \<Rightarrow>
          if Match (regexp flt) p then
            (let flt = flt\<lparr>matched := True\<rparr>
             in if \<not> writeMatched flt then ((length p, None), (flt, inner))
                else (case writer p inner of (r, inner) \<Rightarrow> (r, (flt, inner))))
          else (case writer p inner of (r, inner) \<Rightarrow> (r, (flt, inner))))"

definition stderrWrite :: "world writer" where
  "stderrWrite p w = ((length p, None), w\<lparr>stderr := stderr w @ [p]\<rparr>)"

text \<open>
  A sequence of \<open>Write\<close> calls on one filter, whatever each call returns.
\<close>

fun writeEach :: "'w writer \<Rightarrow> string list \<Rightarrow> matchFilter \<times> 'w \<Rightarrow> matchFilter \<times> 'w" where
  "writeEach writer [] st = st"
| "writeEach writer (p # ps) st = writeEach writer ps (snd (Write writer p st))"

subsection \<open>One attempt and the retry loop\<close>

text \<open>
  \<^verbatim>\<open>cmd.Run\<close> hands what the subprocess writes to its standard error to the writer set
  for it, one write after the other, and stops copying at a write that fails or comes
  back short. It returns the exit error of the subprocess, or else the error of the copy.
\<close>

fun copyOutput :: "'w writer \<Rightarrow> string list \<Rightarrow> 'w \<Rightarrow> error option \<times> 'w" where
  "copyOutput writer [] st = (None, st)"
| "copyOutput writer (p # ps) st =
     (case writer p st of
        ((n, Some err), st) \<Rightarrow> (Some err, st)
      | ((n, None), st) \<Rightarrow>
          if n \<noteq> length p then (Some ''short write'', st) else copyOutput writer ps st)"

definition ssh :: "env \<Rightarrow> string list \<Rightarrow> world \<Rightarrow> (bool \<times> error option) \<times> world" where
  "ssh E args w =
     (let res = sshProcess E (trace w) args;
          w = w\<lparr>trace := trace w @ [SshRun args]\<rparr>;
          refusedFilter = \<lparr>writeMatched = False, regexp = connectRefused, matched = False\<rparr>;
          errFilter = \<lparr>writeMatched = False, regexp = knownHosts, matched = False\<rparr>
      in case copyOutput (Write (Write stderrWrite)) (writes res) (errFilter, (refusedFilter, w)) of
           (copyErr, (errFilter, (refusedFilter, w))) \<Rightarrow>
             (let err = (case exitErr res of Some e \<Rightarrow> Some e | None \<Rightarrow> copyErr)
              in if err \<noteq> None \<and> matched refusedFilter then ((True, err), w)
                 else ((False, err), w)))"

definition sleep :: "nat \<Rightarrow> world \<Rightarrow> world" where
  "sleep ms w = w\<lparr>trace := trace w @ [Sleep ms]\<rparr>"

function sshRetry :: "env \<Rightarrow> string list \<Rightarrow> int \<Rightarrow> error option \<Rightarrow> world \<Rightarrow> error option \<times> world" where
  "sshRetry E args retries err w =
     (if retries > 0 then
        (case ssh E args w of
           ((retry, err), w) \<Rightarrow>
             if \<not> retry then (err, w)
             else sshRetry E args (retries - 1) err (sleep 200 w))
      else (err, w))"
  by pat_completeness auto
termination
  by (relation "measure (\<lambda>(E, args, retries, err, w). nat retries)") auto

declare sshRetry.simps [simp del]

text \<open>
  \<^verbatim>\<open>SSH\<close>. The published host port of the machine is \<^verbatim>\<open>machine.HostPort(22)\<close>, a
  method of \<^verbatim>\<open>machine.go\<close> that asks the backend; it is the parameter \<open>publishedPort\<close>.
\<close>

definition SSH :: "env \<Rightarrow> Cluster \<Rightarrow> string \<Rightarrow> string \<Rightarrow> string list \<Rightarrow> world \<Rightarrow> error option \<times> world" where
  "SSH E c nodename username remoteArgs w =
     (case machineFromHostname (fmtRest E) c nodename of
        Inl err \<Rightarrow> (Some err, w)
      | Inr m \<Rightarrow>
          (case publishedPort E m 22 of
             Inl err \<Rightarrow> (Some err, w)
           | Inr hostPort \<Rightarrow>
               (case mappingFromPort (fmtRest E) (PortMappings (spec m)) 22 of
                  Inl err \<Rightarrow> (Some err, w)
                | Inr mapping \<Rightarrow>
                    (let remote = (if Address mapping \<noteq> [] then Address mapping else ''localhost'');
                         path = expand E (PrivateKey (Cluster (cluster_spec c)));
                         args = [''-o'', ''UserKnownHostsFile=/dev/null'',
                                 ''-o'', ''StrictHostKeyChecking=no'',
                                 ''-o'', ''IdentitiesOnly=yes'',
                                 ''-i'', path,
                                 ''-p'', f (fmtRest E) ''%d'' [AInt hostPort],
                                 ''-l'', username,
                                 remote] @ remoteArgs
                     in sshRetry E args 25 None w))))"


definition startsWith :: "string \<Rightarrow> string \<Rightarrow> bool" where
  "startsWith p s = (take (length s) p = s)"


section \<open>Inspection\<close>

text \<open>
  \<^verbatim>\<open>gatherMachineDetails\<close> (the inspect call and the JSON decoding) is the parameter
  \<open>inspectJSON\<close>.
  \<open>Atoi\<close> is the value \<^verbatim>\<open>strconv.Atoi\<close> returns; its error is dropped at the one call.
  It is 0 on a syntax error and the nearest bound on a range error. \<open>portInt\<close> is
  \<^verbatim>\<open>nat.Port.Int\<close> of the docker API on a key such as \<^verbatim>\<open>22/tcp\<close>: the number
  before the slash, 0 when it does not parse as a 16-bit port. A Go map is ranged over in
  an order of the runtime's choosing; \<open>Ports\<close> lists the entries in the order the loop
  takes them.
\<close>

fun parseDigits :: "string \<Rightarrow> int \<Rightarrow> int option" where
  "parseDigits [] acc = Some acc"
| "parseDigits (c # cs) acc =
     (if isDigit c then parseDigits cs (acc * 10 + digitVal c) else None)"

definition Atoi :: "string \<Rightarrow> int" where
  "Atoi s =
     (case s of
        [] \<Rightarrow> 0
      | c # r \<Rightarrow>
          (let neg = (c = CHR ''-'');
               ds = (if c = CHR ''-'' \<or> c = CHR ''+'' then r else s)
           in if ds = [] then 0
              else case parseDigits ds 0 of
                     None \<Rightarrow> 0
                   | Some n \<Rightarrow>
                       if neg then (if n > 2 ^ 63 then - (2 ^ 63) else - n)
                       else (if n \<ge> 2 ^ 63 then 2 ^ 63 - 1 else n)))"

definition portInt :: "string \<Rightarrow> int" where
  "portInt k =
     (let raw = takeWhile (\<lambda>c. c \<noteq> CHR ''/'') k
      in if raw = [] then 0
         else case parseDigits raw 0 of
                None \<Rightarrow> 0
              | Some n \<Rightarrow> if n > 65535 then 0 else n)"

fun join :: "string list \<Rightarrow> string \<Rightarrow> string" where
  "join [] sep = []"
| "join [x] sep = x"
| "join (x # y # r) sep = x @ sep @ join (y # r) sep"

definition gatherMachineDetails :: "env \<Rightarrow> string \<Rightarrow> error + ContainerJSON" where
  "gatherMachineDetails E nm = inspectJSON E nm"

definition overlayPorts :: "(string \<times> PortBinding list) list \<Rightarrow> PortMapping list" where
  "overlayPorts entries =
     foldl (\<lambda>ports (k, v).
              case v of
                [] \<Rightarrow> ports
              | b # bs \<Rightarrow>
                  (let hostPort = Atoi (binding_HostPort b)
                   in ports @ [\<lparr>ContainerPort = word_of_int hostPort,
                                HostPort = word_of_int (portInt k),
                                Address = HostIP b,
                                Protocol = []\<rparr>]))
       [] entries"

definition overlayVolumes :: "MountPoint list \<Rightarrow> Volume list" where
  "overlayVolumes mounts =
     foldl (\<lambda>volumes mount.
              volumes @ [\<lparr>Type = mount_Type mount, Source = mount_Source mount,
                          Destination = mount_Destination mount, ReadOnly = RW mount\<rparr>])
       [] mounts"

definition overlay :: "Machine \<Rightarrow> ContainerJSON \<Rightarrow> Machine" where
  "overlay m inspect =
     m\<lparr>spec := (spec m)\<lparr>PortMappings := overlayPorts (Ports inspect),
                         Volumes := overlayVolumes (Mounts inspect),
                         Cmd := join (ConfigCmd inspect) '',''\<rparr>,
       ip := IPAddress inspect\<rparr>"

fun gatherLoop :: "env \<Rightarrow> world \<Rightarrow> Machine list \<Rightarrow> Machine list \<times> error option" where
  "gatherLoop E w [] = ([], None)"
| "gatherLoop E w (m # ms) =
     (if IsRunning m w then
        (case gatherMachineDetails E (name m) of
           Inl err \<Rightarrow> (m # ms, Some err)
         | Inr inspect \<Rightarrow>
             (case gatherLoop E w ms of (ms', err) \<Rightarrow> (overlay m inspect # ms', err)))
      else (case gatherLoop E w ms of (ms', err) \<Rightarrow> (m # ms', err)))"

definition gatherMachines :: "env \<Rightarrow> Cluster \<Rightarrow> world \<Rightarrow> Machine list \<times> error option" where
  "gatherMachines E c w = gatherLoop E w (gatherMachinesByCluster (fmtRest E) c)"

section \<open>Example values for closed statements\<close>

text \<open>
  \<open>plainRest\<close> is an instance of the parameter of \<open>Sprintf\<close>; the closed statements below
  only format with the modelled directives, where the parameter is not consulted.
  \<open>overlappingCluster\<close> declares eleven machines \<^verbatim>\<open>node%d\<close> and one machine
  \<^verbatim>\<open>node1%d\<close>. \<open>failOnSecond\<close> is an action that records the instances it is applied to and
  fails at its second invocation.
\<close>

definition plainRest :: fmt_rest where
  "plainRest format args = []"

definition nodeSpec :: "string \<Rightarrow> string \<Rightarrow> config_Machine" where
  "nodeSpec n img =
     \<lparr>Name = n, Image = img, Cmd = [], Privileged = False, Volumes = [], PortMappings = []\<rparr>"

definition overlappingCluster :: Cluster where
  "overlappingCluster =
     \<lparr>cluster_spec =
        \<lparr>Cluster = \<lparr>ClusterName = ''cluster'', PrivateKey = ''cluster-key''\<rparr>,
         Machines = [\<lparr>Spec = nodeSpec ''node%d'' ''ubuntu'', Count = 11\<rparr>,
                     \<lparr>Spec = nodeSpec ''node1%d'' ''centos'', Count = 1\<rparr>]\<rparr>\<rparr>"

definition failOnSecond :: "Machine \<Rightarrow> int \<Rightarrow> (Machine \<times> int) list \<Rightarrow> error option \<times> (Machine \<times> int) list" where
  "failOnSecond m i visited =
     (if length visited = 1 then Some ''second invocation failed'' else None, visited @ [(m, i)])"

definition twoNodes :: Cluster where
  "twoNodes =
     \<lparr>cluster_spec =
        \<lparr>Cluster = \<lparr>ClusterName = ''cluster'', PrivateKey = ''cluster-key''\<rparr>,
         Machines = [\<lparr>Spec = nodeSpec ''node%d'' ''ubuntu'', Count = 2\<rparr>]\<rparr>\<rparr>"

text \<open>
  \<open>quietEnv\<close> is an environment in which no primitive fails, the key file reads, and
  every inspection reports container port 22 published on host port 2222 and one
  read-write bind mount. \<open>oneRunning\<close> is a world in which the backend holds the first
  machine of \<open>twoNodes\<close>, started.
\<close>

definition quietEnv :: env where
  "quietEnv =
     \<lparr>fmtRest = plainRest,
      fails = (\<lambda>cs tr call. None),
      expand = (\<lambda>path. path),
      readFile = (\<lambda>path. Inr ''ssh-rsa AAAA''),
      inspectJSON = (\<lambda>nm. Inr \<lparr>Ports = [(''22/tcp'', [\<lparr>HostIP = ''0.0.0.0'', binding_HostPort = ''2222''\<rparr>])],
                                Mounts = [\<lparr>mount_Type = ''bind'', mount_Source = ''/a'',
                                           mount_Destination = ''/b'', RW = True\<rparr>],
                                ConfigCmd = [''/sbin/init''], IPAddress = ''172.17.0.2''\<rparr>),
      publishedPort = (\<lambda>m port. Inr 2222),
      sshProcess = (\<lambda>tr args. \<lparr>writes = [], exitErr = None\<rparr>)\<rparr>"

definition emptyWorld :: world where
  "emptyWorld = \<lparr>containers = Map.empty, trace = [], logs = [], stderr = []\<rparr>"

definition oneRunning :: world where
  "oneRunning = emptyWorld\<lparr>containers := [''cluster-node0'' \<mapsto> True]\<rparr>"




section \<open>Properties\<close>

subsection \<open>The two loops visit the declared instances in order\<close>

lemma applyInOrder_append:
  "applyInOrder act (xs @ ys) s =
     (case applyInOrder act xs s of (Some e, s') \<Rightarrow> (Some e, s') | (None, s') \<Rightarrow> applyInOrder act ys s')"
  by (induction act xs s rule: applyInOrder.induct) (auto split: prod.splits option.splits)

lemma forEachReplica_upto:
  "forEachReplica rest c act t i s =
     applyInOrder act (map (\<lambda>j. (machine rest c (Spec t) j, j)) [i..Count t - 1]) s"
proof (induction rest c act t i s rule: forEachReplica.induct)
  case (1 rest c act template i s)
  show ?case
  proof (cases "i < Count template")
    case True
    then have u: "[i..Count template - 1] = i # [i + 1..Count template - 1]"
      by (simp add: upto_rec1)
    show ?thesis
      using True 1 by (subst forEachReplica.simps) (auto simp: u split: prod.splits option.splits)
  next
    case False
    then show ?thesis by (subst forEachReplica.simps) simp
  qed
qed

lemma forEachTemplate_instances:
  "forEachTemplate rest c act ts s =
     applyInOrder act
       (concat (map (\<lambda>t. map (\<lambda>i. (machine rest c (Spec t) i, i)) [0..Count t - 1]) ts)) s"
  by (induction ts arbitrary: s)
     (auto simp: applyInOrder_append forEachReplica_upto split: prod.splits option.splits)

lemma firstWithHostname_append:
  "firstWithHostname h (xs @ ys) =
     (case firstWithHostname h xs of Some m \<Rightarrow> Some m | None \<Rightarrow> firstWithHostname h ys)"
  by (induction h xs rule: firstWithHostname.induct) auto

lemma hostname_machine [simp]: "hostname (machine rest c sp i) = f rest (Name sp) [AInt i]"
  by (simp add: machine_def)

lemma findReplica_upto:
  "findReplica rest c h t i =
     firstWithHostname h (map (\<lambda>j. (machine rest c (Spec t) j, j)) [i..Count t - 1])"
proof (induction rest c h t i rule: findReplica.induct)
  case (1 rest c h template i)
  show ?case
  proof (cases "i < Count template")
    case True
    then have u: "[i..Count template - 1] = i # [i + 1..Count template - 1]"
      by (simp add: upto_rec1)
    show ?thesis
      using True 1 by (subst findReplica.simps) (auto simp: u)
  next
    case False
    then show ?thesis by (subst findReplica.simps) simp
  qed
qed

lemma findTemplate_instances:
  "findTemplate rest c h ts =
     firstWithHostname h
       (concat (map (\<lambda>t. map (\<lambda>i. (machine rest c (Spec t) i, i)) [0..Count t - 1]) ts))"
  by (induction ts) (auto simp: firstWithHostname_append findReplica_upto split: option.splits)

lemma firstWithHostname_None:
  "firstWithHostname h xs = None \<longleftrightarrow> h \<notin> set (map (hostname \<circ> fst) xs)"
  by (induction h xs rule: firstWithHostname.induct) auto

lemma firstWithHostname_Some:
  "firstWithHostname h xs = Some m \<Longrightarrow> hostname m = h \<and> m \<in> fst ` set xs"
  by (induction h xs rule: firstWithHostname.induct) (auto split: if_splits)

lemma firstWithHostname_distinct:
  "distinct (map (hostname \<circ> fst) xs) \<Longrightarrow> (m, i) \<in> set xs \<Longrightarrow> firstWithHostname (hostname m) xs = Some m"
  by (induction xs) (auto simp: rev_image_eqI)

lemma set_instances:
  "set (instances rest c) =
     {(machine rest c (Spec t) i, i) | t i. t \<in> set (Machines (cluster_spec c)) \<and> 0 \<le> i \<and> i < Count t}"
  by (auto simp: instances_def)

lemma f_invalid [simp]: "f rest ''%s: invalid machine hostname'' [AString h] = h @ '': invalid machine hostname''"
  by (simp add: f_def Sprintf_def extraString_def)

subsection \<open>Decimal rendering and formatted names\<close>

lemma less10_cases:
  "(d::nat) < 10 \<Longrightarrow> d = 0 \<or> d = 1 \<or> d = 2 \<or> d = 3 \<or> d = 4 \<or> d = 5 \<or> d = 6 \<or> d = 7 \<or> d = 8 \<or> d = 9"
  by arith

lemma digit_less10: "d < 10 \<Longrightarrow> isDigit (digit d)"
  by (drule less10_cases) (auto simp: isDigit_def digit_def)

lemma digit_inj: "a < 10 \<Longrightarrow> b < 10 \<Longrightarrow> digit a = digit b \<Longrightarrow> a = b"
  by (drule less10_cases, drule less10_cases) (auto simp: digit_def)

lemma itoa_nat_nonempty: "itoa_nat n \<noteq> []"
  by (subst itoa_nat.simps) simp

lemma itoa_nat_digits: "c \<in> set (itoa_nat n) \<Longrightarrow> isDigit c"
proof (induction n arbitrary: c rule: itoa_nat.induct)
  case (1 n)
  show ?case
  proof (cases "n < 10")
    case True
    with 1(2) show ?thesis
      by (subst (asm) itoa_nat.simps) (simp add: digit_less10)
  next
    case False
    with 1 show ?thesis
      by (subst (asm) (2) itoa_nat.simps) (auto simp: digit_less10)
  qed
qed

lemma itoa_nat_inj: "itoa_nat n = itoa_nat m \<Longrightarrow> n = m"
proof (induction n arbitrary: m rule: itoa_nat.induct)
  case (1 n)
  show ?case
  proof (cases "n < 10")
    case n: True
    show ?thesis
    proof (cases "m < 10")
      case True
      with n 1(2) show ?thesis
        by (simp add: itoa_nat.simps [of n] itoa_nat.simps [of m] digit_inj)
    next
      case False
      with n 1(2) itoa_nat_nonempty [of "m div 10"] show ?thesis
        by (simp add: itoa_nat.simps [of n] itoa_nat.simps [of m] Cons_eq_append_conv)
    qed
  next
    case n: False
    show ?thesis
    proof (cases "m < 10")
      case True
      with n 1(2) itoa_nat_nonempty [of "n div 10"] show ?thesis
        by (simp add: itoa_nat.simps [of n] itoa_nat.simps [of m] append_eq_Cons_conv)
    next
      case False
      with n 1(2) have e: "itoa_nat (n div 10) = itoa_nat (m div 10)" "digit (n mod 10) = digit (m mod 10)"
        by (simp_all add: itoa_nat.simps [of n] itoa_nat.simps [of m])
      from 1(1) [OF n e(1)] have "n div 10 = m div 10" .
      moreover from e(2) have "n mod 10 = m mod 10"
        by (simp add: digit_inj)
      ultimately show ?thesis
        by (metis div_mult_mod_eq)
    qed
  qed
qed

lemma takeWhile_rev_digits:
  assumes "\<forall>c\<in>set d. isDigit c" "p = [] \<or> \<not> isDigit (last p)"
  shows "takeWhile isDigit (rev (p @ d)) = rev d"
proof -
  have "takeWhile isDigit (rev p) = []"
    using assms(2) by (cases p rule: rev_cases) auto
  moreover have "takeWhile isDigit (rev d @ rev p) = rev d @ takeWhile isDigit (rev p)"
    using assms(1) by (intro takeWhile_append2) simp
  ultimately show ?thesis
    by simp
qed

lemma prefix_itoa_nat_inj:
  assumes "p @ itoa_nat i = q @ itoa_nat j"
    and "p = [] \<or> \<not> isDigit (last p)" "q = [] \<or> \<not> isDigit (last q)"
  shows "p = q \<and> i = j"
proof -
  have "rev (itoa_nat i) = takeWhile isDigit (rev (p @ itoa_nat i))"
    using takeWhile_rev_digits [OF _ assms(2), of "itoa_nat i"] itoa_nat_digits by auto
  also have "\<dots> = takeWhile isDigit (rev (q @ itoa_nat j))"
    using assms(1) by simp
  also have "\<dots> = rev (itoa_nat j)"
    using takeWhile_rev_digits [OF _ assms(3), of "itoa_nat j"] itoa_nat_digits by auto
  finally have "itoa_nat i = itoa_nat j" by simp
  with assms(1) itoa_nat_inj show ?thesis by auto
qed

lemma extraString_Nil [simp]: "extraString [] = []"
  by (simp add: extraString_def)

lemma doPrintf_literal:
  "CHR ''%'' \<notin> set l \<Longrightarrow> doPrintf (l @ r) as = map_option ((@) l) (doPrintf r as)"
proof (induction l)
  case Nil
  show ?case by (simp add: option.map_ident)
next
  case (Cons c l)
  show ?case
  proof (cases "l @ r")
    case Nil
    with Cons.prems show ?thesis by simp
  next
    case (Cons v fs)
    from Cons.prems have "c \<noteq> CHR ''%''" "CHR ''%'' \<notin> set l"
      by auto
    with Cons Cons.IH show ?thesis
      by (simp add: option.map_comp comp_def)
  qed
qed

lemma doPrintf_d [simp]: "doPrintf ''%d'' [AInt i] = Some (itoa i)"
  by (simp add: extraString_def)

lemma f_plain_d: "CHR ''%'' \<notin> set p \<Longrightarrow> f rest (p @ ''%d'') [AInt i] = p @ itoa i"
  by (simp add: f_def Sprintf_def doPrintf_literal)

lemma containerName_plain_d:
  assumes "CHR ''%'' \<notin> set p" "Name a = p @ ''%d''"
  shows "containerName rest c a i = ClusterName (Cluster (cluster_spec c)) @ ''-'' @ p @ itoa i"
proof -
  have "doPrintf (CHR ''-'' # p @ ''%d'') [AInt i] = Some (CHR ''-'' # p @ itoa i)"
    using doPrintf_literal [of "CHR ''-'' # p" "''%d''" "[AInt i]"] assms(1) by simp
  then show ?thesis
    using assms(2) by (simp add: containerName_def f_def Sprintf_def)
qed

lemma itoa_small:
  "itoa 0 = ''0''" "itoa 1 = ''1''" "itoa 3 = ''3''" "itoa 10 = ''10''"
  by (simp_all add: itoa_def itoa_nat.simps digit_def)

lemma twoNodes_instances:
  "instances plainRest twoNodes =
     [(machine plainRest twoNodes (nodeSpec ''node%d'' ''ubuntu'') 0, 0),
      (machine plainRest twoNodes (nodeSpec ''node%d'' ''ubuntu'') 1, 1)]"
proof -
  have "[0..1] = [0, 1::int]"
    by (simp add: upto.simps)
  then show ?thesis
    by (simp add: instances_def twoNodes_def)
qed

lemma twoNodes_names:
  "name (machine plainRest twoNodes (nodeSpec ''node%d'' ''ubuntu'') 0) = ''cluster-node0''"
  "name (machine plainRest twoNodes (nodeSpec ''node%d'' ''ubuntu'') 1) = ''cluster-node1''"
  by (simp_all add: machine_def containerName_def twoNodes_def nodeSpec_def f_def Sprintf_def itoa_small)


subsection \<open>The fleet iterator\<close>

text \<open>
  C5. \<^verbatim>\<open>forEachMachine\<close> applies the action to the declared instances in declaration
  order of the templates and ascending index within a template, once each, and the first
  error ends the iteration and is returned: the two nested loops compute exactly the
  sequential, short-circuiting application over the instance list. For two templates of
  count two and an action that fails at its second invocation, exactly the first template's
  instances 0 and 1 are visited and the error of the second invocation is the result.
\<close>

theorem forEachMachine_in_order_until_first_error:
  "forEachMachine rest c act s = applyInOrder act (instances rest c) s
   \<and> (let c2 = \<lparr>cluster_spec = \<lparr>Cluster = cl, Machines = [\<lparr>Spec = a, Count = 2\<rparr>, \<lparr>Spec = b, Count = 2\<rparr>]\<rparr>\<rparr>
      in forEachMachine rest c2 failOnSecond [] =
           (Some ''second invocation failed'', [(machine rest c2 a 0, 0), (machine rest c2 a 1, 1)]))"
proof -
  have general: "forEachMachine rest c act s = applyInOrder act (instances rest c) s" for c :: Cluster and act :: "Machine \<Rightarrow> int \<Rightarrow> 's \<Rightarrow> error option \<times> 's" and s
    by (simp add: forEachMachine_def instances_def forEachTemplate_instances)
  have two: "[0..1] = [0, 1::int]"
    by (simp add: upto.simps)
  show ?thesis
    by (simp add: general Let_def instances_def two failOnSecond_def)
qed

theorem forEachMachine_in_order_until_first_error_witness:
  "forEachMachine plainRest twoNodes failOnSecond [] =
     (Some ''second invocation failed'',
      [(machine plainRest twoNodes (nodeSpec ''node%d'' ''ubuntu'') 0, 0),
       (machine plainRest twoNodes (nodeSpec ''node%d'' ''ubuntu'') 1, 1)])"
  using forEachMachine_in_order_until_first_error [of plainRest twoNodes failOnSecond "[]"]
  by (simp add: twoNodes_instances failOnSecond_def)


subsection \<open>Resolving a hostname\<close>

text \<open>
  C2, as amended. \<^verbatim>\<open>machineFromHostname\<close> returns the first declared instance, in
  iteration order, whose formatted hostname is the one asked for. For a declared template
  \<open>t\<close> and an index \<open>0 \<le> i < Count t\<close> it therefore returns a machine with the hostname
  \<^verbatim>\<open>f(t.Spec.Name, i)\<close>, and the instance of \<open>(t, i)\<close> itself when the hostnames of the
  declared instances are pairwise distinct. A hostname that no declared pair produces
  yields the invalid-hostname error.
\<close>

theorem machineFromHostname_first_declared_match:
  "machineFromHostname rest c h =
     (case firstWithHostname h (instances rest c) of
        Some m \<Rightarrow> Inr m
      | None \<Rightarrow> Inl (h @ '': invalid machine hostname''))
   \<and> (t \<in> set (Machines (cluster_spec c)) \<and> 0 \<le> i \<and> i < Count t \<longrightarrow>
        (\<exists>m. machineFromHostname rest c (f rest (Name (Spec t)) [AInt i]) = Inr m
           \<and> hostname m = f rest (Name (Spec t)) [AInt i])
        \<and> (distinct (map (hostname \<circ> fst) (instances rest c)) \<longrightarrow>
             machineFromHostname rest c (f rest (Name (Spec t)) [AInt i]) = Inr (machine rest c (Spec t) i)))
   \<and> ((\<forall>t' i'. t' \<in> set (Machines (cluster_spec c)) \<and> 0 \<le> i' \<and> i' < Count t' \<longrightarrow>
          h \<noteq> f rest (Name (Spec t')) [AInt i']) \<longrightarrow>
        machineFromHostname rest c h = Inl (h @ '': invalid machine hostname''))"
proof -
  have scan: "machineFromHostname rest c h =
     (case firstWithHostname h (instances rest c) of
        Some m \<Rightarrow> Inr m
      | None \<Rightarrow> Inl (h @ '': invalid machine hostname''))" for h
    by (simp add: machineFromHostname_def instances_def findTemplate_instances split: option.split)
  have declared: "(\<exists>m. machineFromHostname rest c (f rest (Name (Spec t)) [AInt i]) = Inr m
           \<and> hostname m = f rest (Name (Spec t)) [AInt i])
        \<and> (distinct (map (hostname \<circ> fst) (instances rest c)) \<longrightarrow>
             machineFromHostname rest c (f rest (Name (Spec t)) [AInt i]) = Inr (machine rest c (Spec t) i))"
    if d: "t \<in> set (Machines (cluster_spec c))" "0 \<le> i" "i < Count t"
  proof -
    let ?h = "f rest (Name (Spec t)) [AInt i]"
    from d have mem: "(machine rest c (Spec t) i, i) \<in> set (instances rest c)"
      by (auto simp: set_instances)
    then have "?h \<in> set (map (hostname \<circ> fst) (instances rest c))"
      by (force simp: image_iff)
    then obtain m where m: "firstWithHostname ?h (instances rest c) = Some m"
      using firstWithHostname_None [of ?h "instances rest c"] by (cases "firstWithHostname ?h (instances rest c)") auto
    from firstWithHostname_Some [OF m] have "hostname m = ?h" by simp
    with m have first: "\<exists>m. machineFromHostname rest c ?h = Inr m \<and> hostname m = ?h"
      by (simp add: scan)
    have "machineFromHostname rest c ?h = Inr (machine rest c (Spec t) i)"
      if "distinct (map (hostname \<circ> fst) (instances rest c))"
      using firstWithHostname_distinct [OF that mem] by (simp add: scan)
    with first show ?thesis by blast
  qed
  have absent: "machineFromHostname rest c h = Inl (h @ '': invalid machine hostname'')"
    if n: "\<forall>t' i'. t' \<in> set (Machines (cluster_spec c)) \<and> 0 \<le> i' \<and> i' < Count t' \<longrightarrow>
          h \<noteq> f rest (Name (Spec t')) [AInt i']"
  proof -
    from n have "h \<notin> set (map (hostname \<circ> fst) (instances rest c))"
      by (fastforce simp: set_instances)
    then have "firstWithHostname h (instances rest c) = None"
      by (simp add: firstWithHostname_None)
    then show ?thesis by (simp add: scan)
  qed
  from scan declared absent show ?thesis by blast
qed

theorem machineFromHostname_first_declared_match_witness:
  "machineFromHostname plainRest twoNodes ''node1''
     = Inr (machine plainRest twoNodes (nodeSpec ''node%d'' ''ubuntu'') 1)
   \<and> machineFromHostname plainRest twoNodes ''web0'' = Inl ''web0: invalid machine hostname''"
proof -
  let ?t = "\<lparr>Spec = nodeSpec ''node%d'' ''ubuntu'', Count = 2\<rparr>"
  have node: "f plainRest ''node%d'' [AInt i] = ''node'' @ itoa i" for i
    using f_plain_d [of "''node''" plainRest i] by simp
  have h1: "?t \<in> set (Machines (cluster_spec twoNodes)) \<and> (0::int) \<le> 1 \<and> 1 < Count ?t"
    by (simp add: twoNodes_def)
  have h2: "distinct (map (hostname \<circ> fst) (instances plainRest twoNodes))"
    by code_simp
  have h3: "\<forall>t' i'. t' \<in> set (Machines (cluster_spec twoNodes)) \<and> 0 \<le> i' \<and> i' < Count t' \<longrightarrow>
              ''web0'' \<noteq> f plainRest (Name (Spec t')) [AInt i']"
    by (simp add: twoNodes_def nodeSpec_def node)
  have n1: "f plainRest (Name (nodeSpec ''node%d'' ''ubuntu'')) [AInt 1] = ''node1''"
    by (simp add: nodeSpec_def node itoa_small)
  note scan = machineFromHostname_first_declared_match [of plainRest twoNodes "''web0''" ?t 1]
  from scan h1 h2
  have a: "machineFromHostname plainRest twoNodes (f plainRest (Name (Spec ?t)) [AInt 1])
             = Inr (machine plainRest twoNodes (Spec ?t) 1)"
    by blast
  from scan h3
  have b: "machineFromHostname plainRest twoNodes ''web0'' = Inl (''web0'' @ '': invalid machine hostname'')"
    by blast
  from a b show ?thesis
    by (simp add: n1)
qed


text \<open>
  The claim as stated fails: the template \<^verbatim>\<open>node1%d\<close> is declared with count 1, and the
  hostname of its instance 0 resolves to instance 10 of the template \<^verbatim>\<open>node%d\<close>, which
  is a different machine.
\<close>

theorem machineFromHostname_other_instance_counterexample:
  "\<lparr>Spec = nodeSpec ''node1%d'' ''centos'', Count = 1\<rparr> \<in> set (Machines (cluster_spec overlappingCluster))
   \<and> machineFromHostname plainRest overlappingCluster (f plainRest (Name (nodeSpec ''node1%d'' ''centos'')) [AInt 0])
       = Inr (machine plainRest overlappingCluster (nodeSpec ''node%d'' ''ubuntu'') 10)
   \<and> machine plainRest overlappingCluster (nodeSpec ''node%d'' ''ubuntu'') 10
       \<noteq> machine plainRest overlappingCluster (nodeSpec ''node1%d'' ''centos'') 0"
  by code_simp


subsection \<open>Derived names\<close>

text \<open>
  C3, as amended. The container name and the hostname are functions of the cluster name,
  the template name and the index: they agree whenever these three agree, whatever the
  other fields of the cluster and of the template are. For template names that consist of a prefix without
  \<^verbatim>\<open>%\<close> that does not end in a decimal digit, followed by \<^verbatim>\<open>%d\<close>, the container name is
  \<^verbatim>\<open><cluster>-<prefix><index>\<close>, the hostname is \<^verbatim>\<open><prefix><index>\<close>, and within one
  cluster two pairs of such a template name and a non-negative index with the same
  container name, or with the same hostname, are the same pair.
\<close>

theorem names_injective_for_plain_templates:
  assumes "Name a = p @ ''%d''" and "Name b = q @ ''%d''"
    and "CHR ''%'' \<notin> set p" and "CHR ''%'' \<notin> set q"
    and "p = [] \<or> \<not> isDigit (last p)" and "q = [] \<or> \<not> isDigit (last q)"
    and "0 \<le> i" and "0 \<le> j"
  shows "(ClusterName (Cluster (cluster_spec c)) = ClusterName (Cluster (cluster_spec c')) \<and> Name a = Name a' \<longrightarrow>
       containerName rest c a i = containerName rest c' a' i
       \<and> hostname (machine rest c a i) = hostname (machine rest c' a' i))
    \<and> containerName rest c a i = ClusterName (Cluster (cluster_spec c)) @ ''-'' @ p @ itoa i
    \<and> hostname (machine rest c a i) = p @ itoa i
    \<and> (containerName rest c a i = containerName rest c b j \<longrightarrow> Name a = Name b \<and> i = j)
    \<and> (hostname (machine rest c a i) = hostname (machine rest c b j) \<longrightarrow> Name a = Name b \<and> i = j)"
proof -
  have ca: "containerName rest c a i = ClusterName (Cluster (cluster_spec c)) @ ''-'' @ p @ itoa i"
    using assms(1,3) by (rule containerName_plain_d [rotated])
  have cb: "containerName rest c b j = ClusterName (Cluster (cluster_spec c)) @ ''-'' @ q @ itoa j"
    using assms(2,4) by (rule containerName_plain_d [rotated])
  have ha: "hostname (machine rest c a i) = p @ itoa i"
    using assms(1,3) by (simp add: f_plain_d)
  have hb: "hostname (machine rest c b j) = q @ itoa j"
    using assms(2,4) by (simp add: f_plain_d)
  have inj: "Name a = Name b \<and> i = j" if "p @ itoa i = q @ itoa j"
  proof -
    from that assms(7,8) have "p @ itoa_nat (nat i) = q @ itoa_nat (nat j)"
      by (simp add: itoa_def)
    from prefix_itoa_nat_inj [OF this assms(5,6)] assms(1,2,7,8) show ?thesis
      by auto
  qed
  have same: "containerName rest c a i = containerName rest c' a' i
       \<and> hostname (machine rest c a i) = hostname (machine rest c' a' i)"
    if "ClusterName (Cluster (cluster_spec c)) = ClusterName (Cluster (cluster_spec c'))" "Name a = Name a'"
    using that by (simp add: containerName_def)
  from same ca cb ha hb inj show ?thesis
    by simp
qed

theorem names_injective_for_plain_templates_witness:
  "containerName plainRest twoNodes (nodeSpec ''node%d'' ''ubuntu'') 3
     = containerName plainRest overlappingCluster (nodeSpec ''node%d'' ''centos'') 3
   \<and> containerName plainRest twoNodes (nodeSpec ''node%d'' ''ubuntu'') 3 = ''cluster-node3''
   \<and> hostname (machine plainRest twoNodes (nodeSpec ''node%d'' ''ubuntu'') 3) = ''node3''
   \<and> containerName plainRest twoNodes (nodeSpec ''node%d'' ''ubuntu'') 3
       \<noteq> containerName plainRest twoNodes (nodeSpec ''web%d'' ''ubuntu'') 3
   \<and> hostname (machine plainRest twoNodes (nodeSpec ''node%d'' ''ubuntu'') 3)
       \<noteq> hostname (machine plainRest twoNodes (nodeSpec ''web%d'' ''ubuntu'') 3)"
proof -
  have h: "Name (nodeSpec ''node%d'' ''ubuntu'') = ''node'' @ ''%d''"
    "Name (nodeSpec ''web%d'' ''ubuntu'') = ''web'' @ ''%d''"
    "CHR ''%'' \<notin> set ''node''" "CHR ''%'' \<notin> set ''web''"
    "''node'' = [] \<or> \<not> isDigit (last ''node'')" "''web'' = [] \<or> \<not> isDigit (last ''web'')"
    "(0::int) \<le> 3"
    by (simp_all add: nodeSpec_def isDigit_def)
  have n: "Name (nodeSpec ''node%d'' ''ubuntu'') \<noteq> Name (nodeSpec ''web%d'' ''ubuntu'')"
    by (simp add: nodeSpec_def)
  have s: "ClusterName (Cluster (cluster_spec twoNodes)) = ClusterName (Cluster (cluster_spec overlappingCluster))
      \<and> Name (nodeSpec ''node%d'' ''ubuntu'') = Name (nodeSpec ''node%d'' ''centos'')"
    by (simp add: twoNodes_def overlappingCluster_def nodeSpec_def)
  from names_injective_for_plain_templates [OF h(1,2,3,4,5,6,7,7),
      of twoNodes overlappingCluster "nodeSpec ''node%d'' ''centos''" plainRest] n s
  show ?thesis
    by (auto simp: itoa_small twoNodes_def)
qed


text \<open>
  The claim as stated fails: instance 10 of \<^verbatim>\<open>node%d\<close> and instance 0 of
  \<^verbatim>\<open>node1%d\<close> are distinct pairs with the same container name and the same hostname.
\<close>

theorem names_collide_counterexample:
  "Name (nodeSpec ''node%d'' ''ubuntu'') \<noteq> Name (nodeSpec ''node1%d'' ''centos'')
   \<and> containerName plainRest overlappingCluster (nodeSpec ''node%d'' ''ubuntu'') 10
       = containerName plainRest overlappingCluster (nodeSpec ''node1%d'' ''centos'') 0
   \<and> hostname (machine plainRest overlappingCluster (nodeSpec ''node%d'' ''ubuntu'') 10)
       = hostname (machine plainRest overlappingCluster (nodeSpec ''node1%d'' ''centos'') 0)"
  by (simp add: nodeSpec_def containerName_def machine_def f_def Sprintf_def itoa_small overlappingCluster_def)

subsection \<open>Lifecycle operations\<close>

lemma log_formats:
  "f rest ''Machine with name %s isn't running...'' [AString n] = ''Machine with name '' @ n @ '' isn't running...''"
  "f rest ''Creating machine: %s ...'' [AString n] = ''Creating machine: '' @ n @ '' ...''"
  "f rest ''Machine with name %s is already running...'' [AString n] = ''Machine with name '' @ n @ '' is already running...''"
  by (simp_all add: f_def Sprintf_def)

lemma arg_formats:
  "f rest ''%s:'' [AString a] = a @ '':''"
  "f rest ''%d:'' [AInt i] = itoa i @ '':''"
  "f rest ''%d'' [AUint16 p] = itoa_nat (unat p)"
  "f rest ''/%s'' [AString a] = ''/'' @ a"
  by (simp_all add: f_def Sprintf_def)

lemma wrap64_id: "- (2 ^ 63) \<le> x \<Longrightarrow> x < 2 ^ 63 \<Longrightarrow> wrap64 x = x"
  by (simp add: wrap64_def)

lemma foldl_append_each: "foldl (\<lambda>args x. args @ g x) init xs = init @ concat (map g xs)"
  by (induction xs arbitrary: init) simp_all

lemma createMachineRunArgs_unfold:
  "createMachineRunArgs rest c m nm i =
           [''-it'', ''-d'',
            ''--label'', ''works.weave.owner=footloose'',
            ''--label'', ''works.weave.cluster='' @ ClusterName (Cluster (cluster_spec c)),
            ''--name'', nm,
            ''--hostname'', hostname m,
            ''--tmpfs'', ''/run'',
            ''--tmpfs'', ''/run/lock'',
            ''--tmpfs'', ''/tmp'',
            ''-v'', ''/sys/fs/cgroup:/sys/fs/cgroup:ro'']
           @ concat (map (\<lambda>volume. [''--mount'', mountArg rest volume]) (Volumes (spec m)))
           @ concat (map (\<lambda>mapping. [''-p'', publishArg rest mapping i]) (PortMappings (spec m)))
           @ (if Privileged (spec m) then [''--privileged''] else [])"
  by (simp add: createMachineRunArgs_def Let_def foldl_append_each Hostname_def)

lemma argAfter_name: "argAfter ''--name'' (createMachineRunArgs rest c m nm i) = Some nm"
  by (simp add: createMachineRunArgs_unfold)

lemma createMachine_running:
  "IsRunning m w \<Longrightarrow>
     createMachine E c m i w =
       (None, w\<lparr>logs := logs w @ [''Creating machine: '' @ name m @ '' ...'',
                                  ''Machine with name '' @ name m @ '' is already running...'']\<rparr>)"
  by (simp add: createMachine_def ContainerName_def Infof_def log_formats IsRunning_def Let_def)

lemma createMachine_success:
  assumes "\<not> IsRunning m w" and "fst (createMachine E c m i w) = None"
  shows "\<exists>key. publicKey E c = Inr key
           \<and> trace (snd (createMachine E c m i w)) =
               trace w @ [DockerRun (Image (spec m)) (createMachineRunArgs (fmtRest E) c m (name m) i)
                            [if Cmd (spec m) \<noteq> [] then Cmd (spec m) else ''/sbin/init''],
                          RunShell (name m) initScript,
                          CopyTo (name m) key ''/root/.ssh/authorized_keys'']
           \<and> IsRunning m (snd (createMachine E c m i w))"
  using assms
  by (auto simp: createMachine_def ContainerName_def Infof_def IsRunning_def Let_def invoke_def
        argAfter_name split: option.splits sum.splits prod.splits if_splits)

lemma applyInOrder_absent:
  assumes act: "\<And>m i w. \<not> IsRunning m w \<Longrightarrow> act m i w = (None, w\<lparr>logs := logs w @ [msg m]\<rparr>)"
  shows "\<forall>(m, i)\<in>set xs. \<not> IsRunning m w \<Longrightarrow>
           applyInOrder act xs w = (None, w\<lparr>logs := logs w @ map (\<lambda>(m, i). msg m) xs\<rparr>)"
proof (induction xs arbitrary: w)
  case Nil
  show ?case by simp
next
  case (Cons x xs)
  obtain m i where x: "x = (m, i)" by (cases x)
  from Cons.prems x have "\<not> IsRunning m w" by simp
  then have step: "act m i w = (None, w\<lparr>logs := logs w @ [msg m]\<rparr>)" by (rule act)
  from Cons.prems have "\<forall>(m', i')\<in>set xs. \<not> IsRunning m' (w\<lparr>logs := logs w @ [msg m]\<rparr>)"
    by (auto simp: IsRunning_def)
  from Cons.IH [OF this] step x show ?case by simp
qed

lemma forEachMachine_instances:
  "forEachMachine rest c act s = applyInOrder act (instances rest c) s"
  by (simp add: forEachMachine_def instances_def forEachTemplate_instances)

text \<open>
  C1. On an instance the backend has no container for (\<open>IsRunning\<close> is false), each of
  \<^verbatim>\<open>startMachine\<close>, \<^verbatim>\<open>stopMachine\<close> and \<^verbatim>\<open>deleteMachine\<close> returns \<^verbatim>\<open>nil\<close>, adds
  the one log line, and leaves the trace of backend primitives and the containers as they
  were: no \<^verbatim>\<open>docker start\<close>, \<^verbatim>\<open>stop\<close>, \<^verbatim>\<open>kill\<close> or \<^verbatim>\<open>rm\<close> is invoked and
  nothing is created. When every declared instance is absent, \<^verbatim>\<open>Start\<close>, \<^verbatim>\<open>Stop\<close> and
  \<^verbatim>\<open>Delete\<close> of the cluster do the same for each instance in turn.
\<close>

theorem absent_instance_is_left_alone:
  assumes "\<not> IsRunning m w"
  shows "startMachine E m i w =
           (None, w\<lparr>logs := logs w @ [''Machine with name '' @ name m @ '' isn't running...'']\<rparr>)
       \<and> stopMachine E m i w =
           (None, w\<lparr>logs := logs w @ [''Machine with name '' @ name m @ '' isn't running...'']\<rparr>)
       \<and> deleteMachine E m i w =
           (None, w\<lparr>logs := logs w @ [''Machine with name '' @ name m @ '' isn't running...'']\<rparr>)
       \<and> trace (snd (startMachine E m i w)) = trace w
       \<and> trace (snd (stopMachine E m i w)) = trace w
       \<and> trace (snd (deleteMachine E m i w)) = trace w
       \<and> containers (snd (startMachine E m i w)) = containers w
       \<and> containers (snd (stopMachine E m i w)) = containers w
       \<and> containers (snd (deleteMachine E m i w)) = containers w
       \<and> ((\<forall>(m', i')\<in>set (instances (fmtRest E) c). \<not> IsRunning m' w) \<longrightarrow>
            Start E c w =
              (None, w\<lparr>logs := logs w @ map (\<lambda>(m', i'). ''Machine with name '' @ name m' @ '' isn't running...'')
                                              (instances (fmtRest E) c)\<rparr>)
          \<and> Stop E c w =
              (None, w\<lparr>logs := logs w @ map (\<lambda>(m', i'). ''Machine with name '' @ name m' @ '' isn't running...'')
                                              (instances (fmtRest E) c)\<rparr>)
          \<and> Delete E c w =
              (None, w\<lparr>logs := logs w @ map (\<lambda>(m', i'). ''Machine with name '' @ name m' @ '' isn't running...'')
                                              (instances (fmtRest E) c)\<rparr>))"
proof -
  let ?msg = "\<lambda>m'. ''Machine with name '' @ name m' @ '' isn't running...''"
  have one: "startMachine E m' i' w' = (None, w'\<lparr>logs := logs w' @ [?msg m']\<rparr>)"
    "stopMachine E m' i' w' = (None, w'\<lparr>logs := logs w' @ [?msg m']\<rparr>)"
    "deleteMachine E m' i' w' = (None, w'\<lparr>logs := logs w' @ [?msg m']\<rparr>)"
    if "\<not> IsRunning m' w'" for m' i' w'
    using that
    by (simp_all add: startMachine_def stopMachine_def deleteMachine_def ContainerName_def Infof_def
          log_formats)
  have all: "Start E c w = (None, w\<lparr>logs := logs w @ map (\<lambda>(m', i'). ?msg m') (instances (fmtRest E) c)\<rparr>)
      \<and> Stop E c w = (None, w\<lparr>logs := logs w @ map (\<lambda>(m', i'). ?msg m') (instances (fmtRest E) c)\<rparr>)
      \<and> Delete E c w = (None, w\<lparr>logs := logs w @ map (\<lambda>(m', i'). ?msg m') (instances (fmtRest E) c)\<rparr>)"
    if "\<forall>(m', i')\<in>set (instances (fmtRest E) c). \<not> IsRunning m' w"
    using applyInOrder_absent [of "startMachine E" ?msg, OF one(1) that]
      applyInOrder_absent [of "stopMachine E" ?msg, OF one(2) that]
      applyInOrder_absent [of "deleteMachine E" ?msg, OF one(3) that]
    by (simp add: Start_def Stop_def Delete_def forEachMachine_instances)
  from one [OF assms, of i] all show ?thesis
    by simp
qed

theorem absent_instance_is_left_alone_witness:
  "startMachine quietEnv (machine plainRest twoNodes (nodeSpec ''node%d'' ''ubuntu'') 0) 0 emptyWorld =
     (None, emptyWorld\<lparr>logs := [''Machine with name cluster-node0 isn't running...'']\<rparr>)
   \<and> trace (snd (deleteMachine quietEnv (machine plainRest twoNodes (nodeSpec ''node%d'' ''ubuntu'') 0) 0 emptyWorld)) = []
   \<and> Stop quietEnv twoNodes emptyWorld =
     (None, emptyWorld\<lparr>logs := [''Machine with name cluster-node0 isn't running...'',
                                ''Machine with name cluster-node1 isn't running...'']\<rparr>)"
proof -
  let ?m = "machine plainRest twoNodes (nodeSpec ''node%d'' ''ubuntu'') 0"
  have h1: "\<not> IsRunning ?m emptyWorld"
    by (simp add: IsRunning_def emptyWorld_def)
  have h2: "\<forall>(m', i')\<in>set (instances (fmtRest quietEnv) twoNodes). \<not> IsRunning m' emptyWorld"
    by (simp add: IsRunning_def emptyWorld_def)
  have e: "fmtRest quietEnv = plainRest" "logs emptyWorld = []" "trace emptyWorld = []"
    by (simp_all add: quietEnv_def emptyWorld_def)
  from absent_instance_is_left_alone [OF h1, of quietEnv 0 twoNodes] h2 show ?thesis
    by (simp add: e twoNodes_instances twoNodes_names)
qed

text \<open>
  C8. \<^verbatim>\<open>createMachine\<close> on an instance that exists logs two lines and returns \<^verbatim>\<open>nil\<close>
  without invoking the backend: no \<^verbatim>\<open>docker run\<close>, no first-boot script, no key push.
  When it is called on an absent instance and succeeds, it has invoked exactly the run,
  the script and the key push, the instance exists afterwards, and a second call returns
  \<^verbatim>\<open>nil\<close> and adds nothing to the trace and changes no container.
\<close>

theorem createMachine_existing_is_noop:
  "(IsRunning m w \<longrightarrow>
      createMachine E c m i w =
        (None, w\<lparr>logs := logs w @ [''Creating machine: '' @ name m @ '' ...'',
                                   ''Machine with name '' @ name m @ '' is already running...'']\<rparr>))
   \<and> (\<not> IsRunning m w \<and> fst (createMachine E c m i w) = None \<longrightarrow>
        (\<exists>key. publicKey E c = Inr key
           \<and> trace (snd (createMachine E c m i w)) =
               trace w @ [DockerRun (Image (spec m)) (createMachineRunArgs (fmtRest E) c m (name m) i)
                            [if Cmd (spec m) \<noteq> [] then Cmd (spec m) else ''/sbin/init''],
                          RunShell (name m) initScript,
                          CopyTo (name m) key ''/root/.ssh/authorized_keys''])
        \<and> IsRunning m (snd (createMachine E c m i w))
        \<and> fst (createMachine E c m i (snd (createMachine E c m i w))) = None
        \<and> trace (snd (createMachine E c m i (snd (createMachine E c m i w))))
            = trace (snd (createMachine E c m i w))
        \<and> containers (snd (createMachine E c m i (snd (createMachine E c m i w))))
            = containers (snd (createMachine E c m i w)))"
proof -
  have second: "fst (createMachine E c m i w') = None
      \<and> trace (snd (createMachine E c m i w')) = trace w'
      \<and> containers (snd (createMachine E c m i w')) = containers w'" if "IsRunning m w'" for w'
    using createMachine_running [OF that, of E c i] by simp
  show ?thesis
    using createMachine_running [of m w E c i] createMachine_success [of m w E c i] second
    by blast
qed

theorem createMachine_existing_is_noop_witness:
  "fst (createMachine quietEnv twoNodes (machine plainRest twoNodes (nodeSpec ''node%d'' ''ubuntu'') 0) 0 emptyWorld) = None
   \<and> fst (createMachine quietEnv twoNodes (machine plainRest twoNodes (nodeSpec ''node%d'' ''ubuntu'') 0) 0
        (snd (createMachine quietEnv twoNodes (machine plainRest twoNodes (nodeSpec ''node%d'' ''ubuntu'') 0) 0 emptyWorld))) = None
   \<and> trace (snd (createMachine quietEnv twoNodes (machine plainRest twoNodes (nodeSpec ''node%d'' ''ubuntu'') 0) 0
        (snd (createMachine quietEnv twoNodes (machine plainRest twoNodes (nodeSpec ''node%d'' ''ubuntu'') 0) 0 emptyWorld))))
     = trace (snd (createMachine quietEnv twoNodes (machine plainRest twoNodes (nodeSpec ''node%d'' ''ubuntu'') 0) 0 emptyWorld))"
proof -
  let ?m = "machine plainRest twoNodes (nodeSpec ''node%d'' ''ubuntu'') 0"
  have h1: "\<not> IsRunning ?m emptyWorld"
    by (simp add: IsRunning_def emptyWorld_def)
  have h2: "fst (createMachine quietEnv twoNodes ?m 0 emptyWorld) = None"
    by (simp add: createMachine_def Let_def Infof_def IsRunning_def emptyWorld_def invoke_def
          quietEnv_def publicKey_def)
  from createMachine_existing_is_noop [of ?m emptyWorld quietEnv twoNodes 0] h1 h2 show ?thesis
    by blast
qed

text \<open>
  C4. For a replica index \<open>i\<close> (non-negative, and small enough for the sum with a 16-bit
  port to stay a Go \<^verbatim>\<open>int\<close>), the publish argument is the bind address and a colon when
  an address is declared, then the effective host port \<open>HostPort + i\<close> and a colon when the
  declared host port is not zero and nothing otherwise, then the container port, then a
  slash and the protocol when one is declared. \<^verbatim>\<open>createMachineRunArgs\<close> emits
  \<^verbatim>\<open>-p\<close> with this argument once per declared mapping, in order, after the mounts.
\<close>

theorem publish_argument_effective_port:
  assumes "0 \<le> i" and "i < 2 ^ 63 - 2 ^ 16"
  shows "publishArg rest mapping i =
           (if Address mapping \<noteq> [] then Address mapping @ '':'' else [])
           @ (if HostPort mapping \<noteq> 0 then itoa (uint (HostPort mapping) + i) @ '':'' else [])
           @ itoa_nat (unat (ContainerPort mapping))
           @ (if Protocol mapping \<noteq> [] then ''/'' @ Protocol mapping else [])
       \<and> createMachineRunArgs rest c m nm i =
           [''-it'', ''-d'',
            ''--label'', ''works.weave.owner=footloose'',
            ''--label'', ''works.weave.cluster='' @ ClusterName (Cluster (cluster_spec c)),
            ''--name'', nm,
            ''--hostname'', hostname m,
            ''--tmpfs'', ''/run'',
            ''--tmpfs'', ''/run/lock'',
            ''--tmpfs'', ''/tmp'',
            ''-v'', ''/sys/fs/cgroup:/sys/fs/cgroup:ro'']
           @ concat (map (\<lambda>volume. [''--mount'', mountArg rest volume]) (Volumes (spec m)))
           @ concat (map (\<lambda>mapping. [''-p'', publishArg rest mapping i]) (PortMappings (spec m)))
           @ (if Privileged (spec m) then [''--privileged''] else [])"
proof -
  have "uint (HostPort mapping) < 2 ^ 16"
    using uint_bounded [of "HostPort mapping"] by simp
  moreover have "0 \<le> uint (HostPort mapping)"
    by simp
  ultimately have "wrap64 (uint (HostPort mapping) + i) = uint (HostPort mapping) + i"
    using assms by (intro wrap64_id) linarith+
  then have p: "publishArg rest mapping i =
           (if Address mapping \<noteq> [] then Address mapping @ '':'' else [])
           @ (if HostPort mapping \<noteq> 0 then itoa (uint (HostPort mapping) + i) @ '':'' else [])
           @ itoa_nat (unat (ContainerPort mapping))
           @ (if Protocol mapping \<noteq> [] then ''/'' @ Protocol mapping else [])"
    by (simp add: publishArg_def Let_def arg_formats)
  from p createMachineRunArgs_unfold [of rest c m nm i] show ?thesis by blast
qed

theorem publish_argument_effective_port_witness:
  "publishArg plainRest \<lparr>ContainerPort = 22, HostPort = 2222, Address = ''127.0.0.1'', Protocol = ''tcp''\<rparr> 1
     = ''127.0.0.1:2223:22/tcp''
   \<and> publishArg plainRest \<lparr>ContainerPort = 80, HostPort = 0, Address = [], Protocol = []\<rparr> 1 = ''80''"
proof -
  have h: "(0::int) \<le> 1" "(1::int) < 2 ^ 63 - 2 ^ 16"
    by simp_all
  have n: "itoa 2223 = ''2223''" "itoa_nat 22 = ''22''" "itoa_nat 80 = ''80''"
    by (simp_all add: itoa_def itoa_nat.simps digit_def)
  from publish_argument_effective_port [OF h, of plainRest "\<lparr>ContainerPort = 22, HostPort = 2222, Address = ''127.0.0.1'', Protocol = ''tcp''\<rparr>"]
    publish_argument_effective_port [OF h, of plainRest "\<lparr>ContainerPort = 80, HostPort = 0, Address = [], Protocol = []\<rparr>"]
  show ?thesis
    by (simp add: n)
qed

subsection \<open>The stderr filters and one ssh attempt\<close>

lemma matchHere_lits:
  "matchHere (map Lit l @ r) b s \<longleftrightarrow> (\<exists>rest. s = l @ rest \<and> matchHere r (b \<and> l = []) rest)"
proof (induction l arbitrary: b s)
  case Nil
  show ?case by simp
next
  case (Cons c l)
  show ?case
    by (cases s) (auto simp: Cons.IH)
qed


lemma matchFrom_Begin_later: "\<not> matchFrom (Begin # r) False s"
  by (induction s) simp_all

lemma Match_Begin: "Match (Begin # r) p = matchHere r True p"
  by (cases p) (simp_all add: Match_def matchFrom_Begin_later)

lemma startsWith_iff: "startsWith p s \<longleftrightarrow> (\<exists>rest. p = s @ rest)"
  unfolding startsWith_def
  by (metis append_eq_conv_conj append_take_drop_id)

lemma Match_connectRefused:
  "Match connectRefused p = startsWith p ''ssh_exchange_identification: ''"
  using matchHere_lits [of "''ssh_exchange_identification: ''" "[]" True p]
  by (simp add: connectRefused_def Match_Begin startsWith_iff)



lemma Write_matched:
  "matched (fst (snd (Write writer p (flt, inner)))) = (matched flt \<or> Match (regexp flt) p)"
  "regexp (fst (snd (Write writer p (flt, inner)))) = regexp flt"
  "writeMatched (fst (snd (Write writer p (flt, inner)))) = writeMatched flt"
  by (simp_all add: Write_def Let_def split: prod.splits)

lemma writeEach_matched:
  "matched (fst (writeEach writer ps (flt, inner))) = (matched flt \<or> (\<exists>p\<in>set ps. Match (regexp flt) p))
   \<and> regexp (fst (writeEach writer ps (flt, inner))) = regexp flt
   \<and> writeMatched (fst (writeEach writer ps (flt, inner))) = writeMatched flt"
proof (induction ps arbitrary: flt inner)
  case Nil
  show ?case by simp
next
  case (Cons p ps)
  obtain r flt' inner' where w: "Write writer p (flt, inner) = (r, (flt', inner'))"
    by (metis prod.exhaust)
  from Write_matched [of writer p flt inner] w
  have "matched flt' = (matched flt \<or> Match (regexp flt) p)" "regexp flt' = regexp flt"
    "writeMatched flt' = writeMatched flt"
    by simp_all
  with Cons.IH [of flt' inner'] w show ?case
    by auto
qed

lemma Write_suppressed:
  "Match (regexp flt) p \<Longrightarrow> \<not> writeMatched flt \<Longrightarrow>
     Write writer p (flt, inner) = ((length p, None), (flt\<lparr>matched := True\<rparr>, inner))"
  by (simp add: Write_def)





text \<open>
  C10. The \<open>matched\<close> flag of a filter after a sequence of writes is true exactly when
  it was true before or one of the payloads matches the pattern by itself; it is never
  cleared. A write that matches and is suppressed returns the full length of the payload
  and no error, and the wrapped writer is not called. The signature split over two writes
  is not detected, although the two payloads together match.
\<close>

theorem matchFilter_detects_within_one_write:
  "matched (fst (writeEach writer ps (flt, inner))) = (matched flt \<or> (\<exists>p\<in>set ps. Match (regexp flt) p))
   \<and> (Match (regexp flt) p \<and> \<not> writeMatched flt \<longrightarrow>
        Write writer p (flt, inner) = ((length p, None), (flt\<lparr>matched := True\<rparr>, inner)))
   \<and> (let refusedFilter = \<lparr>writeMatched = False, regexp = connectRefused, matched = False\<rparr>
      in Match connectRefused (''ssh_exchange_'' @ ''identification: read: Connection reset by peer'')
         \<and> \<not> matched (fst (writeEach writer
                  [''ssh_exchange_'', ''identification: read: Connection reset by peer'']
                  (refusedFilter, inner))))"
proof -
  have split: "Match connectRefused (''ssh_exchange_'' @ ''identification: read: Connection reset by peer'')"
    "\<not> Match connectRefused ''ssh_exchange_''"
    "\<not> Match connectRefused ''identification: read: Connection reset by peer''"
    by (simp_all add: Match_connectRefused startsWith_def)
  show ?thesis
    using writeEach_matched [of writer ps flt inner] Write_suppressed [of flt p writer inner]
      writeEach_matched [of writer "[''ssh_exchange_'', ''identification: read: Connection reset by peer'']"
        "\<lparr>writeMatched = False, regexp = connectRefused, matched = False\<rparr>" inner]
      split
    by (simp add: Let_def)
qed

theorem matchFilter_detects_within_one_write_witness:
  "Write stderrWrite ''ssh_exchange_identification: read: Connection reset by peer''
     (\<lparr>writeMatched = False, regexp = connectRefused, matched = False\<rparr>, emptyWorld)
   = ((59, None), (\<lparr>writeMatched = False, regexp = connectRefused, matched = True\<rparr>, emptyWorld))"
proof -
  let ?p = "''ssh_exchange_identification: read: Connection reset by peer''"
  let ?flt = "\<lparr>writeMatched = False, regexp = connectRefused, matched = False\<rparr>"
  have h: "Match (regexp ?flt) ?p \<and> \<not> writeMatched ?flt"
    by (simp add: Match_connectRefused startsWith_def)
  from matchFilter_detects_within_one_write [of stderrWrite "[]" ?flt emptyWorld ?p] h
  show ?thesis
    by simp
qed



subsection \<open>The retry loop\<close>











subsection \<open>Inspection\<close>

text \<open>
  C9. The overlay of \<^verbatim>\<open>gatherMachines\<close> at a running machine whose inspection record
  publishes container port 22 (key \<^verbatim>\<open>22/tcp\<close>) on host port 2222 of 0.0.0.0 and has
  one read-write bind mount: the overlaid mapping has \<open>ContainerPort = 2222\<close> and
  \<open>HostPort = 22\<close>, the two ports exchanged, and the read-write mount is overlaid as
  read-only. The command, the address and the IP address are overlaid as claimed.
\<close>

theorem gatherMachines_overlay_swaps_ports:
  "gatherMachines quietEnv twoNodes oneRunning =
     ([\<lparr>spec = \<lparr>Name = ''node%d'', Image = ''ubuntu'', Cmd = ''/sbin/init'', Privileged = False,
                Volumes = [\<lparr>Type = ''bind'', Source = ''/a'', Destination = ''/b'', ReadOnly = True\<rparr>],
                PortMappings = [\<lparr>ContainerPort = 2222, HostPort = 22, Address = ''0.0.0.0'', Protocol = []\<rparr>]\<rparr>,
        name = ''cluster-node0'', hostname = ''node0'', ip = ''172.17.0.2''\<rparr>,
       \<lparr>spec = nodeSpec ''node%d'' ''ubuntu'',
        name = ''cluster-node1'', hostname = ''node1'', ip = []\<rparr>],
      None)"
  by code_simp

end
